theory Spec2Isabelle
  imports Complex_Main "HOL-Library.AList" "HOL-Library.Multiset"
begin

section \<open>Numbers, colours and arrays\<close>

text \<open>
  The generators of \<^verbatim>\<open>ModelManager.ts\<close> compute with JavaScript numbers. They are
  modelled as reals: \<^verbatim>\<open>Math.cos\<close>, \<^verbatim>\<open>Math.sin\<close> and \<^verbatim>\<open>Math.PI\<close> are \<open>cos\<close>,
  \<open>sin\<close> and \<open>pi\<close>, and \<open>+\<close>, \<open>*\<close>, \<open>/\<close> are exact, so the rounding of IEEE doubles,
  \<^verbatim>\<open>NaN\<close> and the infinities are outside the model. The statements below are
  about counts, positions in the buffers, the values at angle 0 and bounds with room
  for rounding; none says that a computed point lies exactly on a circle, which holds
  of the reals and not of the doubles. Loop counters and vertex indices
  are small non-negative integers and are modelled as \<open>nat\<close>; where the source uses a
  counter in arithmetic it is converted with \<open>real\<close>.
\<close>

type_synonym number = real

definition Math_floor :: "number \<Rightarrow> number" where
  "Math_floor v = of_int \<lfloor>v\<rfloor>"

text \<open>
  Modelled from the spec: the class \<^verbatim>\<open>Color\<close> (\<^verbatim>\<open>Color.ts\<close> is not part of the
  sources). A colour is constructed from three channels and exposes them as the fields
  \<^verbatim>\<open>r\<close>, \<^verbatim>\<open>g\<close>, \<^verbatim>\<open>b\<close>.
\<close>

record Color =
  r :: number
  g :: number
  b :: number

definition new_Color :: "number \<Rightarrow> number \<Rightarrow> number \<Rightarrow> Color" where
  "new_Color cr cg cb = \<lparr>r = cr, g = cg, b = cb\<rparr>"

text \<open>
  \<^verbatim>\<open>Color.interpolate2d(c0, c1, c2, c3, s, t)\<close> is not part of the sources either.
  The mesh generators take it as a parameter of this type.
\<close>

type_synonym interpolate2d = "Color \<Rightarrow> Color \<Rightarrow> Color \<Rightarrow> Color \<Rightarrow> number \<Rightarrow> number \<Rightarrow> Color"

text \<open>
  Modelled from the spec: the bilinear blend of section 4.1, each channel truncated to
  an integer. It is only used to instantiate the parameter at concrete inputs.
\<close>

definition trunc :: "number \<Rightarrow> number" where
  "trunc v = (if 0 \<le> v then of_int \<lfloor>v\<rfloor> else of_int \<lceil>v\<rceil>)"

definition blend :: "number \<Rightarrow> number \<Rightarrow> number \<Rightarrow> number \<Rightarrow> number \<Rightarrow> number \<Rightarrow> number" where
  "blend v00 v10 v01 v11 s t =
     trunc ((1 - t) * ((1 - s) * v00 + s * v10) + t * ((1 - s) * v01 + s * v11))"

definition bilinear :: interpolate2d where
  "bilinear c00 c10 c01 c11 s t =
     new_Color (blend (r c00) (r c10) (r c01) (r c11) s t)
               (blend (g c00) (g c10) (g c01) (g c11) s t)
               (blend (b c00) (b c10) (b c01) (b c11) s t)"

text \<open>
  Reading a JavaScript array outside its bounds yields \<^verbatim>\<open>undefined\<close>: \<open>None\<close> here.
\<close>

definition js_get :: "'a list \<Rightarrow> nat \<Rightarrow> 'a option" where
  "js_get xs i = (if i < length xs then Some (xs ! i) else None)"

text \<open>
  The loop \<^verbatim>\<open>for (let i = i0; i < n; i++) body\<close>, the state being what the body
  updates.
\<close>

function for_loop :: "nat \<Rightarrow> nat \<Rightarrow> (nat \<Rightarrow> 's \<Rightarrow> 's) \<Rightarrow> 's \<Rightarrow> 's" where
  "for_loop i n body s = (if i < n then for_loop (i + 1) n body (body i s) else s)"
  by pat_completeness auto
termination
  by (relation "measure (\<lambda>(i, n, body, s). n - i)") auto

declare for_loop.simps [simp del]

text \<open>
  A vertex buffer is the flat sequence of the source, six numbers for each vertex
  (x, y, z, r, g, b). \<open>vertexAt buf k\<close> is the record of vertex \<open>k\<close>.
\<close>

definition vertexAt :: "'a list \<Rightarrow> nat \<Rightarrow> 'a list" where
  "vertexAt buf k = take 6 (drop (6 * k) buf)"

section \<open>The triangle strip\<close>

text \<open>
  One iteration of the loop of \<^verbatim>\<open>generateTriangleStrip\<close> (lines 105 to 148). The
  palette has three entries and is only read at an index \<open>mod 3\<close>.
\<close>

definition triangleStrip_segment ::
  "number \<Rightarrow> number \<Rightarrow> number \<Rightarrow> number \<Rightarrow> number \<Rightarrow> Color list \<Rightarrow> nat \<Rightarrow> number list \<Rightarrow> number list" where
  "triangleStrip_segment x y innerRadius outerRadius angleStep colors i vertices =
     (let currAngle = real i * angleStep;
          nextAngle = (real i + 1) * angleStep;
          x0 = x + innerRadius * cos currAngle;
          y0 = y + innerRadius * sin currAngle;
          x1 = x + outerRadius * cos currAngle;
          y1 = y + outerRadius * sin currAngle;
          x2 = x + innerRadius * cos nextAngle;
          y2 = y + innerRadius * sin nextAngle;
          x3 = x + outerRadius * cos nextAngle;
          y3 = y + outerRadius * sin nextAngle;
          vertices =
            (if i = 0 then
               vertices
                 @ [x0, y0, 0,
                    Math_floor (r (colors ! (i mod 3))),
                    Math_floor (g (colors ! (i mod 3))),
                    Math_floor (b (colors ! (i mod 3)))]
                 @ [x1, y1, 0,
                    Math_floor (r (colors ! ((i + 2) mod 3))),
                    Math_floor (g (colors ! ((i + 2) mod 3))),
                    Math_floor (b (colors ! ((i + 2) mod 3)))]
             else vertices)
      in vertices
           @ [x2, y2, 0,
              Math_floor (r (colors ! ((i + 1) mod 3))),
              Math_floor (g (colors ! ((i + 1) mod 3))),
              Math_floor (b (colors ! ((i + 1) mod 3)))]
           @ [x3, y3, 0,
              Math_floor (r (colors ! (i mod 3))),
              Math_floor (g (colors ! (i mod 3))),
              Math_floor (b (colors ! (i mod 3)))])"

text \<open>
  The body of \<^verbatim>\<open>generateTriangleStrip\<close> with the segment count as an argument; the
  source fixes it to 18.
\<close>

definition triangleStrip_with :: "nat \<Rightarrow> number \<Rightarrow> number \<Rightarrow> number list" where
  "triangleStrip_with numSegments width height =
     (let x = width / 2;
          y = height / 2;
          innerRadius = 40;
          outerRadius = 80;
          colors = [new_Color 255 0 0, new_Color 0 255 0, new_Color 0 0 255];
          angleStep = 2 * pi / real numSegments
      in for_loop 0 numSegments
           (triangleStrip_segment x y innerRadius outerRadius angleStep colors) [])"

definition generateTriangleStrip :: "number \<Rightarrow> number \<Rightarrow> number list" where
  "generateTriangleStrip width height = triangleStrip_with 18 width height"

text \<open>
  The query \<^verbatim>\<open>getModel\<close>: a \<^verbatim>\<open>switch\<close> on the identifier with one case and a
  default.
\<close>

definition getModel :: "string \<Rightarrow> number \<Rightarrow> number \<Rightarrow> number list" where
  "getModel model width height =
     (if model = ''triangleStrip'' then generateTriangleStrip width height else [])"

section \<open>The triangle fan\<close>

text \<open>
  One iteration of the loop of \<^verbatim>\<open>generateTriangleFan\<close> (lines 194 to 210). The
  radius \<^verbatim>\<open>r\<close> of the source is called \<open>radius\<close>, since \<open>r\<close> is the red channel.
\<close>

definition triangleFan_rim ::
  "number \<Rightarrow> number \<Rightarrow> number \<Rightarrow> nat \<Rightarrow> Color \<Rightarrow> Color \<Rightarrow> nat \<Rightarrow> number list \<Rightarrow> number list" where
  "triangleFan_rim x y radius numTriangles color1 color2 i vertices =
     (let s = real i / real numTriangles;
          t = 0 :: number;
          color = (if i mod 2 = 0 then color2 else color1);
          angle = - s * pi / 2;
          x1 = x + radius * cos angle;
          y1 = y + radius * sin angle
      in vertices
           @ [x1, y1, 0,
              Math_floor (r color), Math_floor (g color), Math_floor (b color)])"

text \<open>
  The vertex buffer that \<^verbatim>\<open>generateTriangleFan\<close> builds before it calls the
  rasterizer, with the number of triangles as an argument (the source fixes it to 5) and
  \<open>frame_height\<close> for \<^verbatim>\<open>frame.height\<close>.
\<close>

definition triangleFan_with :: "nat \<Rightarrow> number \<Rightarrow> number list" where
  "triangleFan_with numTriangles frame_height =
     (let x = 10;
          y = frame_height - 10;
          radius = 150;
          color0 = new_Color 255 0 0;
          color1 = new_Color 0 255 0;
          color2 = new_Color 0 0 255;
          vertices = [] @ [x, y, 0]
                        @ [Math_floor (r color0), Math_floor (g color0), Math_floor (b color0)]
      in for_loop 0 (numTriangles + 1)
           (triangleFan_rim x y radius numTriangles color1 color2) vertices)"

section \<open>The indexed mesh and the flattened mesh\<close>

text \<open>
  What \<^verbatim>\<open>generateTrianglesIndex\<close> hands to the rasterizer: the vertex buffer, the
  index buffer and the triangle count. The step counts are arguments (the source fixes
  them to 10 and 5, under the comment that the constants may be changed); they are
  meant to be positive, since the source divides by them.
\<close>

definition trianglesIndex_with ::
  "interpolate2d \<Rightarrow> nat \<Rightarrow> nat \<Rightarrow> number list \<times> nat list \<times> nat" where
  "trianglesIndex_with interpolate x_steps y_steps =
     (let x = 10;
          y = 10;
          w = 180;
          h = 100;
          x_step = w / real x_steps;
          y_step = h / real y_steps;
          color0 = new_Color 255 0 0;
          color1 = new_Color 0 255 0;
          color2 = new_Color 0 0 255;
          color3 = new_Color 255 255 0;
          (vertices, num_vertices) =
            for_loop 0 (x_steps + 1) (\<lambda>i.
              for_loop 0 (y_steps + 1) (\<lambda>j (vertices, num_vertices).
                let s = real i / real x_steps;
                    t = real j / real y_steps;
                    color = interpolate color0 color1 color2 color3 s t
                in (vertices
                      @ [x + real i * x_step, y + real j * y_step, 0,
                         Math_floor (r color), Math_floor (g color), Math_floor (b color)],
                    num_vertices + 1)))
              ([], 0 :: nat);
          (indices, numTriangles) =
            for_loop 0 x_steps (\<lambda>i.
              for_loop 0 y_steps (\<lambda>j (indices, numTriangles).
                (indices
                   @ [i * (y_steps + 1) + j,
                      i * (y_steps + 1) + j + 1,
                      (i + 1) * (y_steps + 1) + j,
                      i * (y_steps + 1) + j + 1,
                      (i + 1) * (y_steps + 1) + j + 1,
                      (i + 1) * (y_steps + 1) + j],
                 numTriangles + 2)))
              ([], 0 :: nat)
      in (vertices, indices, numTriangles))"

text \<open>
  The local function \<^verbatim>\<open>pushVertex\<close> of \<^verbatim>\<open>generateTriangles\<close>: it copies the six
  numbers of one vertex of \<^verbatim>\<open>tmpVertices\<close> to the end of \<^verbatim>\<open>vertices\<close>. The reads are
  JavaScript array reads, so the output buffer holds \<open>number option\<close>.
\<close>

definition pushVertex :: "number list \<Rightarrow> nat \<Rightarrow> number option list \<Rightarrow> number option list" where
  "pushVertex tmpVertices index vertices =
     (let index = index * 6
      in vertices
           @ [js_get tmpVertices index]
           @ [js_get tmpVertices (index + 1)]
           @ [js_get tmpVertices (index + 2)]
           @ [js_get tmpVertices (index + 3)]
           @ [js_get tmpVertices (index + 4)]
           @ [js_get tmpVertices (index + 5)])"

text \<open>
  What \<^verbatim>\<open>generateTriangles\<close> hands to the rasterizer: the flattened vertex buffer and
  the triangle count. The source fixes both step counts to 1.
\<close>

definition triangles_with ::
  "interpolate2d \<Rightarrow> nat \<Rightarrow> nat \<Rightarrow> number option list \<times> nat" where
  "triangles_with interpolate x_steps y_steps =
     (let x = 10;
          y = 10;
          w = 180;
          h = 100;
          x_step = w / real x_steps;
          y_step = h / real y_steps;
          color0 = new_Color 255 0 0;
          color1 = new_Color 0 255 0;
          color2 = new_Color 0 0 255;
          color3 = new_Color 255 255 0;
          (tmpVertices, num_vertices) =
            for_loop 0 (x_steps + 1) (\<lambda>i.
              for_loop 0 (y_steps + 1) (\<lambda>j (tmpVertices, num_vertices).
                let s = real i / real x_steps;
                    t = real j / real y_steps;
                    color = interpolate color0 color1 color2 color3 s t
                in (tmpVertices
                      @ [x + real i * x_step, y + real j * y_step, 0,
                         Math_floor (r color), Math_floor (g color), Math_floor (b color)],
                    num_vertices + 1)))
              ([], 0 :: nat);
          (vertices, numTriangles) =
            for_loop 0 x_steps (\<lambda>i.
              for_loop 0 y_steps (\<lambda>j (vertices, numTriangles).
                let vertexIndex = i * (y_steps + 1) + j;
                    vertices = pushVertex tmpVertices vertexIndex vertices;
                    vertexIndex = i * (y_steps + 1) + j + 1;
                    vertices = pushVertex tmpVertices vertexIndex vertices;
                    vertexIndex = (i + 1) * (y_steps + 1) + j;
                    vertices = pushVertex tmpVertices vertexIndex vertices;
                    vertexIndex = i * (y_steps + 1) + j + 1;
                    vertices = pushVertex tmpVertices vertexIndex vertices;
                    vertexIndex = (i + 1) * (y_steps + 1) + j + 1;
                    vertices = pushVertex tmpVertices vertexIndex vertices;
                    vertexIndex = (i + 1) * (y_steps + 1) + j;
                    vertices = pushVertex tmpVertices vertexIndex vertices
                in (vertices, numTriangles + 2)))
              ([], 0 :: nat)
      in (vertices, numTriangles))"

section \<open>The rasterizer, the frame buffer and the dispatcher\<close>

text \<open>
  Modelled from the spec: the class \<^verbatim>\<open>FrameBuffer\<close> (not part of the sources). The
  generators read its width and height; the rest of the surface is \<open>pixels\<close>.
\<close>

record 'p FrameBuffer =
  width :: number
  height :: number
  pixels :: 'p

text \<open>
  The four fill operations of \<^verbatim>\<open>GeometricProcessor\<close> are not part of the sources and
  are parameters. They draw into the frame they are given; here they return it. A
  \<open>fill_call\<close> records one invocation with its buffers and options.
\<close>

record 'p GeometricProcessor =
  fillTriangleStrip :: "number list \<Rightarrow> 'p FrameBuffer \<Rightarrow> bool \<Rightarrow> Color \<Rightarrow> 'p FrameBuffer"
  fillTriangleFan :: "number list \<Rightarrow> 'p FrameBuffer \<Rightarrow> bool \<Rightarrow> Color \<Rightarrow> 'p FrameBuffer"
  fillTrianglesIndex ::
    "number list \<Rightarrow> nat list \<Rightarrow> nat \<Rightarrow> 'p FrameBuffer \<Rightarrow> bool \<Rightarrow> Color \<Rightarrow> 'p FrameBuffer"
  fillTriangles ::
    "number option list \<Rightarrow> nat \<Rightarrow> 'p FrameBuffer \<Rightarrow> bool \<Rightarrow> Color \<Rightarrow> 'p FrameBuffer"

datatype fill_call =
    FillTriangleStrip "number list" bool Color
  | FillTriangleFan "number list" bool Color
  | FillTrianglesIndex "number list" "nat list" nat bool Color
  | FillTriangles "number option list" nat bool Color

text \<open>
  A drawing method returns the frame after its fill operations and the list of the
  fill operations it invoked, in order.
\<close>

type_synonym 'p drawn = "'p FrameBuffer \<times> fill_call list"

definition invoke :: "'p GeometricProcessor \<Rightarrow> fill_call \<Rightarrow> 'p FrameBuffer \<Rightarrow> 'p drawn" where
  "invoke gp call frame =
     (case call of
        FillTriangleStrip vertices drawBorder borderColor \<Rightarrow>
          (fillTriangleStrip gp vertices frame drawBorder borderColor, [call])
      | FillTriangleFan vertices drawBorder borderColor \<Rightarrow>
          (fillTriangleFan gp vertices frame drawBorder borderColor, [call])
      | FillTrianglesIndex vertices indices numTriangles drawBorder borderColor \<Rightarrow>
          (fillTrianglesIndex gp vertices indices numTriangles frame drawBorder borderColor, [call])
      | FillTriangles vertices numTriangles drawBorder borderColor \<Rightarrow>
          (fillTriangles gp vertices numTriangles frame drawBorder borderColor, [call]))"

definition renderTriangleStrip ::
  "'p GeometricProcessor \<Rightarrow> 'p FrameBuffer \<Rightarrow> bool \<Rightarrow> Color \<Rightarrow> 'p drawn" where
  "renderTriangleStrip gp frame drawBorder borderColor =
     (let vertices = generateTriangleStrip (width frame) (height frame)
      in invoke gp (FillTriangleStrip vertices drawBorder borderColor) frame)"

definition generateTriangleFan ::
  "'p GeometricProcessor \<Rightarrow> 'p FrameBuffer \<Rightarrow> bool \<Rightarrow> Color \<Rightarrow> 'p drawn" where
  "generateTriangleFan gp frame drawBorder borderColor =
     (let vertices = triangleFan_with 5 (height frame)
      in invoke gp (FillTriangleFan vertices drawBorder borderColor) frame)"

definition generateTrianglesIndex ::
  "'p GeometricProcessor \<Rightarrow> interpolate2d \<Rightarrow> 'p FrameBuffer \<Rightarrow> bool \<Rightarrow> Color \<Rightarrow> 'p drawn" where
  "generateTrianglesIndex gp interpolate frame drawBorder borderColor =
     (let (vertices, indices, numTriangles) = trianglesIndex_with interpolate 10 5
      in invoke gp (FillTrianglesIndex vertices indices numTriangles drawBorder borderColor) frame)"

definition generateTriangles ::
  "'p GeometricProcessor \<Rightarrow> interpolate2d \<Rightarrow> 'p FrameBuffer \<Rightarrow> bool \<Rightarrow> Color \<Rightarrow> 'p drawn" where
  "generateTriangles gp interpolate frame drawBorder borderColor =
     (let (vertices, numTriangles) = triangles_with interpolate 1 1
      in invoke gp (FillTriangles vertices numTriangles drawBorder borderColor) frame)"

text \<open>
  The registry \<^verbatim>\<open>modelTesters\<close> as the constructor fills it: a JavaScript \<^verbatim>\<open>Map\<close>
  keeps its keys in insertion order, as \<open>AList.update\<close> does.
\<close>

datatype tester =
  GenerateTrianglesIndex | GenerateTriangles | GenerateTriangleFan | RenderTriangleStrip

definition modelTesters :: "(string \<times> tester) list" where
  "modelTesters =
     AList.update ''triangleStrip'' RenderTriangleStrip
       (AList.update ''triangleFan'' GenerateTriangleFan
         (AList.update ''meshTriangles'' GenerateTriangles
           (AList.update ''meshIndex'' GenerateTrianglesIndex [])))"

definition getModels :: "string list" where
  "getModels = map fst modelTesters"

definition drawModel ::
  "'p GeometricProcessor \<Rightarrow> interpolate2d \<Rightarrow> string \<Rightarrow> 'p FrameBuffer \<Rightarrow> bool \<Rightarrow> Color \<Rightarrow> 'p drawn" where
  "drawModel gp interpolate model frame drawBorder borderColor =
     (if model = ''triangleStrip'' then renderTriangleStrip gp frame drawBorder borderColor
      else if model = ''triangleFan'' then generateTriangleFan gp frame drawBorder borderColor
      else if model = ''meshIndex'' then
        generateTrianglesIndex gp interpolate frame drawBorder borderColor
      else if model = ''meshTriangles'' then
        generateTriangles gp interpolate frame drawBorder borderColor
      else (frame, []))"

section \<open>Closed forms of the loops\<close>

text \<open>
  The six numbers that the strip and the fan push for a point of a circle around
  \<open>(x, y)\<close>.
\<close>

definition ring_vertex :: "number \<Rightarrow> number \<Rightarrow> number \<Rightarrow> number \<Rightarrow> Color \<Rightarrow> number list" where
  "ring_vertex x y radius angle color =
     [x + radius * cos angle, y + radius * sin angle, 0,
      Math_floor (r color), Math_floor (g color), Math_floor (b color)]"

text \<open>
  Vertex \<open>k\<close> of the strip: the two seed vertices of segment 0 are vertices 0 and 1,
  and segment \<open>i\<close> pushes vertices \<open>2 * i + 2\<close> (inner ring) and \<open>2 * i + 3\<close> (outer
  ring), both at the angle \<open>(i + 1) * angleStep\<close>.
\<close>

definition strip_color :: "nat \<Rightarrow> nat" where
  "strip_color k =
     (if k = 1 then 2 else if even k then (k div 2) mod 3 else (k div 2 - 1) mod 3)"

definition strip_vertex :: "nat \<Rightarrow> number \<Rightarrow> number \<Rightarrow> nat \<Rightarrow> number list" where
  "strip_vertex numSegments wd ht k =
     ring_vertex (wd / 2) (ht / 2) (if even k then 40 else 80)
       (real (k div 2) * (2 * pi / real numSegments))
       ([new_Color 255 0 0, new_Color 0 255 0, new_Color 0 0 255] ! strip_color k)"

text \<open>
  The six numbers of the grid vertex \<open>(i, j)\<close> of the two meshes, and the six indices
  that the index pass pushes for the cell \<open>(i, j)\<close>.
\<close>

definition grid_vertex :: "interpolate2d \<Rightarrow> nat \<Rightarrow> nat \<Rightarrow> nat \<Rightarrow> nat \<Rightarrow> number list" where
  "grid_vertex interpolate x_steps y_steps i j =
     (let color = interpolate (new_Color 255 0 0) (new_Color 0 255 0) (new_Color 0 0 255)
                    (new_Color 255 255 0) (real i / real x_steps) (real j / real y_steps)
      in [10 + real i * (180 / real x_steps), 10 + real j * (100 / real y_steps), 0,
          Math_floor (r color), Math_floor (g color), Math_floor (b color)])"

definition cell_indices :: "nat \<Rightarrow> nat \<Rightarrow> nat \<Rightarrow> nat list" where
  "cell_indices y_steps i j =
     [i * (y_steps + 1) + j,
      i * (y_steps + 1) + j + 1,
      (i + 1) * (y_steps + 1) + j,
      i * (y_steps + 1) + j + 1,
      (i + 1) * (y_steps + 1) + j + 1,
      (i + 1) * (y_steps + 1) + j]"

section \<open>Loops that only append\<close>

lemma for_loop_fold: "for_loop i n body s = fold body [i..<n] s"
proof (induction i n body s rule: for_loop.induct)
  case (1 i n body s)
  show ?case
  proof (cases "i < n")
    case True
    with 1 show ?thesis
      by (subst for_loop.simps) (simp add: upt_rec [of i n])
  next
    case False
    then show ?thesis by (subst for_loop.simps) simp
  qed
qed

lemma fold_emit:
  assumes "\<And>j xs. body j xs = xs @ body j []"
  shows "fold body js xs = xs @ concat (map (\<lambda>j. body j []) js)"
proof (induction js arbitrary: xs)
  case Nil
  show ?case by simp
next
  case (Cons j js)
  have "fold body (j # js) xs = fold body js (body j xs)" by simp
  also have "\<dots> = body j xs @ concat (map (\<lambda>j. body j []) js)" by (rule Cons.IH)
  also have "body j xs = xs @ body j []" by (rule assms)
  finally show ?case by simp
qed

lemma for_loop_emit:
  assumes "\<And>j xs. body j xs = xs @ body j []"
  shows "for_loop i n body xs = xs @ concat (map (\<lambda>j. body j []) [i..<n])"
  unfolding for_loop_fold by (rule fold_emit) (rule assms)

lemma fold_emit_count:
  fixes body :: "nat \<Rightarrow> 'a list \<times> nat \<Rightarrow> 'a list \<times> nat"
  assumes "\<And>j xs c. body j (xs, c) = (xs @ fst (body j ([], 0)), c + snd (body j ([], 0)))"
  shows "fold body js (xs, c) =
           (xs @ concat (map (\<lambda>j. fst (body j ([], 0))) js),
            c + sum_list (map (\<lambda>j. snd (body j ([], 0))) js))"
proof (induction js arbitrary: xs c)
  case Nil
  show ?case by simp
next
  case (Cons j js)
  have "fold body (j # js) (xs, c) = fold body js (body j (xs, c))" by simp
  also have "body j (xs, c) = (xs @ fst (body j ([], 0)), c + snd (body j ([], 0)))"
    by (rule assms)
  finally show ?case by (simp add: Cons.IH)
qed

lemma for_loop_emit_count:
  fixes body :: "nat \<Rightarrow> 'a list \<times> nat \<Rightarrow> 'a list \<times> nat"
  assumes "\<And>j xs c. body j (xs, c) = (xs @ fst (body j ([], 0)), c + snd (body j ([], 0)))"
  shows "for_loop i n body (xs, c) =
           (xs @ concat (map (\<lambda>j. fst (body j ([], 0))) [i..<n]),
            c + sum_list (map (\<lambda>j. snd (body j ([], 0))) [i..<n]))"
  unfolding for_loop_fold by (rule fold_emit_count) (rule assms)

section \<open>Buffers made of blocks of one length\<close>

lemma concat_blocks_length:
  assumes "\<And>j. j < n \<Longrightarrow> length (f j) = L"
  shows "length (concat (map f [0..<n])) = n * L"
  using assms by (induction n) simp_all

lemma concat_blocks_drop:
  assumes "\<And>j. j < n \<Longrightarrow> length (f j) = L" and "k < n"
  shows "take L (drop (k * L) (concat (map f [0..<n]))) = f k"
  using assms
proof (induction n)
  case 0
  then show ?case by simp
next
  case (Suc n)
  have len: "length (concat (map f [0..<n])) = n * L"
    by (rule concat_blocks_length) (simp add: Suc.prems(1))
  show ?case
  proof (cases "k < n")
    case True
    then have "Suc k * L \<le> n * L" by (intro mult_le_mono1) simp
    then have "L + k * L \<le> n * L" by simp
    moreover have "take L (drop (k * L) (concat (map f [0..<n]))) = f k"
      using True Suc.prems(1) by (intro Suc.IH) simp_all
    ultimately show ?thesis by (simp add: len)
  next
    case False
    with Suc.prems(2) have "k = n" by simp
    then show ?thesis by (simp add: len Suc.prems(1))
  qed
qed

lemma concat_blocks_nth:
  assumes "\<And>j. j < n \<Longrightarrow> length (f j) = L" and "k < n" and "d < L"
  shows "concat (map f [0..<n]) ! (k * L + d) = f k ! d"
proof -
  have "f k ! d = take L (drop (k * L) (concat (map f [0..<n]))) ! d"
    by (simp only: concat_blocks_drop [of n f L k, OF assms(1) assms(2)])
  also have "\<dots> = concat (map f [0..<n]) ! (k * L + d)"
  proof -
    have "Suc k * L \<le> n * L" using assms(2) by (intro mult_le_mono1) simp
    then have "k * L + d < length (concat (map f [0..<n]))"
      using assms(3) by (simp add: concat_blocks_length [of n f L, OF assms(1)])
    then show ?thesis using assms(3) by simp
  qed
  finally show ?thesis by simp
qed

lemma vertexAt_blocks:
  assumes "\<And>j. j < n \<Longrightarrow> length (f j) = 6" and "k < n"
  shows "vertexAt (concat (map f [0..<n])) k = f k"
  using concat_blocks_drop [of n f 6 k] assms by (simp add: vertexAt_def mult.commute)

section \<open>The strip, vertex by vertex\<close>

lemma strip_emitted:
  "triangleStrip_with N wd ht =
     concat (map (\<lambda>i. triangleStrip_segment (wd / 2) (ht / 2) 40 80 (2 * pi / real N)
        [new_Color 255 0 0, new_Color 0 255 0, new_Color 0 0 255] i []) [0..<N])"
proof -
  have "for_loop 0 N (triangleStrip_segment (wd / 2) (ht / 2) 40 80 (2 * pi / real N)
        [new_Color 255 0 0, new_Color 0 255 0, new_Color 0 0 255]) [] =
     [] @ concat (map (\<lambda>i. triangleStrip_segment (wd / 2) (ht / 2) 40 80 (2 * pi / real N)
        [new_Color 255 0 0, new_Color 0 255 0, new_Color 0 0 255] i []) [0..<N])"
    by (rule for_loop_emit) (simp add: triangleStrip_segment_def Let_def)
  then show ?thesis by (simp add: triangleStrip_with_def Let_def)
qed

lemma strip_segment_vertices:
  "triangleStrip_segment (wd / 2) (ht / 2) 40 80 (2 * pi / real N)
        [new_Color 255 0 0, new_Color 0 255 0, new_Color 0 0 255] i [] =
     (if i = 0 then strip_vertex N wd ht 0 @ strip_vertex N wd ht 1 else [])
       @ strip_vertex N wd ht (2 * i + 2) @ strip_vertex N wd ht (2 * i + 3)"
  by (simp add: triangleStrip_segment_def Let_def strip_vertex_def ring_vertex_def
      strip_color_def mod_Suc add.commute)

lemma seeded_pairs_blocks:
  "concat (map (\<lambda>i. (if i = 0 then V 0 @ V 1 else []) @ V (2 * i + 2) @ V (2 * i + 3))
       [0..<Suc n]) =
   concat (map V [0..<2 * n + 4])"
proof (induction n)
  case 0
  have L: "[0..<Suc 0] = [0]" by simp
  have R: "[0..<2 * 0 + 4] = [0, 1, 2, 3::nat]" by (simp add: upt_rec)
  have a: "2 * 0 + 2 = (2::nat)" and b: "2 * 0 + 3 = (3::nat)" by simp_all
  show ?case
    unfolding L R
    by (simp only: a b list.map concat.simps append_Nil2 append_assoc if_True simp_thms)
next
  case (Suc n)
  have L: "[0..<Suc (Suc n)] = [0..<Suc n] @ [Suc n]" by simp
  have e: "2 * Suc n + 4 = Suc (Suc (2 * n + 4))" by simp
  have f: "Suc (2 * n + 4) = 2 * n + 5" by simp
  have "[0..<Suc (Suc m)] = [0..<m] @ [m, Suc m]" for m by simp
  from this [of "2 * n + 4", folded e, unfolded f]
  have R: "[0..<2 * Suc n + 4] = [0..<2 * n + 4] @ [2 * n + 4, 2 * n + 5]" .
  have a: "2 * Suc n + 2 = 2 * n + 4" and b: "2 * Suc n + 3 = 2 * n + 5" by simp_all
  show ?case
    unfolding L R map_append concat_append Suc.IH
    by (simp only: a b nat.simps if_False list.map concat.simps append_Nil append_Nil2)
qed

lemma strip_buffer:
  assumes "0 < N"
  shows "triangleStrip_with N wd ht = concat (map (strip_vertex N wd ht) [0..<2 * N + 2])"
proof -
  from assms obtain n where N: "N = Suc n" by (cases N) simp_all
  have c: "2 * Suc n + 2 = 2 * n + 4" by simp
  show ?thesis
    unfolding strip_emitted strip_segment_vertices
    unfolding N c by (rule seeded_pairs_blocks)
qed

lemma length_strip_vertex: "length (strip_vertex N wd ht k) = 6"
  by (simp add: strip_vertex_def ring_vertex_def)

lemma length_strip:
  assumes "0 < N"
  shows "length (triangleStrip_with N wd ht) = 6 * (2 * N + 2)"
  unfolding strip_buffer [OF assms]
  by (simp add: concat_blocks_length [of _ _ 6] length_strip_vertex)


lemma strip_vertexAt:
  assumes "0 < N" and "k < 2 * N + 2"
  shows "vertexAt (triangleStrip_with N wd ht) k = strip_vertex N wd ht k"
  unfolding strip_buffer [OF assms(1)]
  using assms(2) by (intro vertexAt_blocks) (simp_all add: length_strip_vertex)

lemma strip_nth:
  assumes "0 < N" and "k < 2 * N + 2" and "d < 6"
  shows "triangleStrip_with N wd ht ! (6 * k + d) = strip_vertex N wd ht k ! d"
  unfolding strip_buffer [OF assms(1)]
  using concat_blocks_nth [of "2 * N + 2" "strip_vertex N wd ht" 6 k d] assms(2,3)
  by (simp add: length_strip_vertex mult.commute)

lemma strip_x:
  assumes "0 < N" and "k < 2 * N + 2"
  shows "triangleStrip_with N wd ht ! (6 * k) =
           wd / 2 + (if even k then 40 else 80) * cos (real (k div 2) * (2 * pi / real N))"
  using strip_nth [OF assms, of 0 wd ht] by (simp add: strip_vertex_def ring_vertex_def)

lemma strip_y:
  assumes "0 < N" and "k < 2 * N + 2"
  shows "triangleStrip_with N wd ht ! (6 * k + 1) =
           ht / 2 + (if even k then 40 else 80) * sin (real (k div 2) * (2 * pi / real N))"
  using strip_nth [OF assms, of 1 wd ht] by (simp add: strip_vertex_def ring_vertex_def)

lemma strip_default_vertex:
  "6 * k < length (generateTriangleStrip wd ht) \<longleftrightarrow> k < 38"
  by (simp add: generateTriangleStrip_def length_strip)

lemma ring_bounds:
  fixes c :: real
  assumes "0 \<le> rad" and "rad \<le> 80" and "\<bar>t\<bar> \<le> 1"
  shows "c - 80 \<le> c + rad * t" and "c + rad * t \<le> c + 80"
proof -
  have "\<bar>rad * t\<bar> \<le> rad * 1"
    unfolding abs_mult using assms by (intro mult_mono) simp_all
  with assms(2) have "\<bar>rad * t\<bar> \<le> 80" by simp
  then show "c - 80 \<le> c + rad * t" and "c + rad * t \<le> c + 80" by simp_all
qed

section \<open>Claims about the triangle strip\<close>

text \<open>
  Claim C1, as the code has it. Segment 0 pushes the two seed vertices and every
  segment pushes two more, so \<open>N \<ge> 1\<close> segments give \<open>2 * N + 2\<close> vertices: for
  every width and height the buffer of \<^verbatim>\<open>generateTriangleStrip\<close> holds 38 vertices,
  that is 228 numbers.
\<close>

theorem strip_vertex_count:
  assumes "0 < N"
  shows "length (triangleStrip_with N wd ht) = 6 * (2 * N + 2)
       \<and> length (generateTriangleStrip wd ht) = 6 * 38"
  using assms by (simp add: generateTriangleStrip_def length_strip)

text \<open>The statement above at 18 segments and a frame of 200 by 200.\<close>

theorem strip_vertex_count_witness:
  "(0::nat) < 18 \<and> length (triangleStrip_with 18 200 200) = 6 * (2 * 18 + 2)
       \<and> length (generateTriangleStrip 200 200) = 6 * 38"
  using strip_vertex_count [of 18 200 200] by simp

text \<open>
  The count of claim C1, \<open>N + 2 = 20\<close> vertices or 120 numbers, is not the length of
  the buffer of \<^verbatim>\<open>generateTriangleStrip(200, 200)\<close>.
\<close>

theorem strip_vertex_count_counterexample:
  "length (generateTriangleStrip 200 200) \<noteq> 6 * (18 + 2)"
  by (simp add: generateTriangleStrip_def length_strip)

text \<open>
  Claim C4, as the code has it. The first vertex of \<^verbatim>\<open>generateTriangleStrip(200, 200)\<close>
  is at \<open>(140, 100, 0)\<close>, which is \<open>200 / 2 + 40 * cos 0\<close>; for every width and height
  the first two vertices are the inner and the outer ring point of segment 0 at its
  current angle \<open>0 * angleStep\<close>, in that order, coloured with palette entries 0 and 2.
\<close>

theorem strip_first_vertices:
  "take 3 (vertexAt (generateTriangleStrip 200 200) 0) = [140, 100, 0]
   \<and> vertexAt (generateTriangleStrip wd ht) 0 =
       [wd / 2 + 40 * cos (0 * (2 * pi / 18)), ht / 2 + 40 * sin (0 * (2 * pi / 18)), 0,
        255, 0, 0]
   \<and> vertexAt (generateTriangleStrip wd ht) 1 =
       [wd / 2 + 80 * cos (0 * (2 * pi / 18)), ht / 2 + 80 * sin (0 * (2 * pi / 18)), 0,
        0, 0, 255]"
  by (simp add: generateTriangleStrip_def strip_vertexAt strip_vertex_def ring_vertex_def
      strip_color_def new_Color_def Math_floor_def)

text \<open>
  The position \<open>(240, 100, 0)\<close> of claim C4 is not the position of the first vertex of
  \<^verbatim>\<open>generateTriangleStrip(200, 200)\<close>.
\<close>

theorem strip_first_vertex_counterexample:
  "take 3 (vertexAt (generateTriangleStrip 200 200) 0) \<noteq> [240, 100, 0]"
  by (simp add: generateTriangleStrip_def strip_vertexAt strip_vertex_def ring_vertex_def)

text \<open>
  Claim C9. For every width and height, every vertex \<open>k\<close> of the buffer of
  \<^verbatim>\<open>generateTriangleStrip\<close> has its \<open>x\<close> within \<open>width / 2 \<plusminus> 80\<close> and its \<open>y\<close>
  within \<open>height / 2 \<plusminus> 80\<close>, 80 being the outer radius.
\<close>

theorem strip_positions_bounded:
  assumes "6 * k < length (generateTriangleStrip wd ht)"
  shows "wd / 2 - 80 \<le> generateTriangleStrip wd ht ! (6 * k)
       \<and> generateTriangleStrip wd ht ! (6 * k) \<le> wd / 2 + 80
       \<and> ht / 2 - 80 \<le> generateTriangleStrip wd ht ! (6 * k + 1)
       \<and> generateTriangleStrip wd ht ! (6 * k + 1) \<le> ht / 2 + 80"
proof -
  from assms have k: "k < 2 * 18 + 2" by (simp add: strip_default_vertex)
  have rad: "0 \<le> (if even k then 40 else 80 :: real)" "(if even k then 40 else 80 :: real) \<le> 80"
    by simp_all
  have N: "(0::nat) < 18" by simp
  show ?thesis
    unfolding generateTriangleStrip_def strip_x [OF N k] strip_y [OF N k]
    using ring_bounds [OF rad] by (simp del: of_nat_numeral)
qed

text \<open>The last vertex of the strip for a frame of 200 by 200.\<close>

theorem strip_positions_bounded_witness:
  "6 * 37 < length (generateTriangleStrip 200 200)
       \<and> 200 / 2 - 80 \<le> generateTriangleStrip 200 200 ! (6 * 37)
       \<and> generateTriangleStrip 200 200 ! (6 * 37) \<le> 200 / 2 + 80
       \<and> 200 / 2 - 80 \<le> generateTriangleStrip 200 200 ! (6 * 37 + 1)
       \<and> generateTriangleStrip 200 200 ! (6 * 37 + 1) \<le> 200 / 2 + 80"
proof -
  have h: "6 * 37 < length (generateTriangleStrip 200 200)"
    using strip_default_vertex [of 37 200 200] by simp
  show ?thesis using h strip_positions_bounded [OF h] by simp
qed

section \<open>Claims about the triangle fan\<close>

lemma fan_emitted:
  "triangleFan_with N ht =
     [10, ht - 10, 0, 255, 0, 0]
       @ concat (map (\<lambda>i. ring_vertex 10 (ht - 10) 150 (- (real i / real N) * pi / 2)
                         (if even i then new_Color 0 0 255 else new_Color 0 255 0))
           [0..<N + 1])"
proof -
  have "for_loop 0 (N + 1)
          (triangleFan_rim 10 (ht - 10) 150 N (new_Color 0 255 0) (new_Color 0 0 255)) xs =
        xs @ concat (map (\<lambda>i. triangleFan_rim 10 (ht - 10) 150 N (new_Color 0 255 0)
                                  (new_Color 0 0 255) i []) [0..<N + 1])" for xs
    by (rule for_loop_emit) (simp add: triangleFan_rim_def Let_def)
  moreover have "triangleFan_rim 10 (ht - 10) 150 N (new_Color 0 255 0) (new_Color 0 0 255) i [] =
      ring_vertex 10 (ht - 10) 150 (- (real i / real N) * pi / 2)
        (if even i then new_Color 0 0 255 else new_Color 0 255 0)" for i
    by (simp add: triangleFan_rim_def Let_def ring_vertex_def even_iff_mod_2_eq_zero)
  ultimately show ?thesis
    by (simp add: triangleFan_with_def Let_def new_Color_def Math_floor_def del: upt_Suc)
qed

lemma length_ring_vertex: "length (ring_vertex x y rad a c) = 6"
  by (simp add: ring_vertex_def)

lemma vertexAt_0: "length v = 6 \<Longrightarrow> vertexAt (v @ rest) 0 = v"
  by (simp add: vertexAt_def)

lemma vertexAt_Suc: "length v = 6 \<Longrightarrow> vertexAt (v @ rest) (k + 1) = vertexAt rest k"
  by (simp add: vertexAt_def)

text \<open>
  Claim C6. For every frame height the fan buffer holds \<open>numTriangles + 2\<close> vertices
  (7 for the 5 triangles of the source). Vertex 0 is the apex \<open>(10, height - 10, 0)\<close>
  in palette colour 0, and vertex \<open>i + 1\<close>, for \<open>i\<close> from 0 to \<open>numTriangles\<close>, is the
  rim point at the angle \<open>- s * pi / 2\<close> with \<open>s = i / numTriangles\<close>, in palette
  colour 2 when \<open>i\<close> is even and in palette colour 1 when \<open>i\<close> is odd.
\<close>

theorem fan_vertices:
  assumes "0 < N" and "i \<le> N"
  shows "length (triangleFan_with N ht) = 6 * (N + 2)
       \<and> vertexAt (triangleFan_with N ht) 0 = [10, ht - 10, 0, 255, 0, 0]
       \<and> vertexAt (triangleFan_with N ht) (i + 1) =
           [10 + 150 * cos (- (real i / real N) * pi / 2),
            ht - 10 + 150 * sin (- (real i / real N) * pi / 2), 0]
           @ (if even i then [0, 0, 255] else [0, 255, 0])"
proof -
  let ?rim = "\<lambda>i. ring_vertex 10 (ht - 10) 150 (- (real i / real N) * pi / 2)
                         (if even i then new_Color 0 0 255 else new_Color 0 255 0)"
  have len: "length (concat (map ?rim [0..<N + 1])) = (N + 1) * 6"
    by (rule concat_blocks_length) (rule length_ring_vertex)
  have rim: "vertexAt (concat (map ?rim [0..<N + 1])) i = ?rim i"
    using assms(2) by (intro vertexAt_blocks) (simp_all add: length_ring_vertex)
  have "length (triangleFan_with N ht) = 6 * (N + 2)"
    unfolding fan_emitted using len by simp
  moreover have "vertexAt (triangleFan_with N ht) 0 = [10, ht - 10, 0, 255, 0, 0]"
    unfolding fan_emitted by (rule vertexAt_0) simp
  moreover have "vertexAt (triangleFan_with N ht) (i + 1) = ?rim i"
    unfolding fan_emitted using rim by (subst vertexAt_Suc) simp_all
  ultimately show ?thesis
    by (simp add: ring_vertex_def new_Color_def Math_floor_def)
qed

text \<open>The fan of the source, 5 triangles, in a frame of height 200, at rim point 3.\<close>

theorem fan_vertices_witness:
  "(0::nat) < 5 \<and> (3::nat) \<le> 5
       \<and> length (triangleFan_with 5 200) = 6 * (5 + 2)
       \<and> vertexAt (triangleFan_with 5 200) 0 = [10, 200 - 10, 0, 255, 0, 0]
       \<and> vertexAt (triangleFan_with 5 200) (3 + 1) =
           [10 + 150 * cos (- (real 3 / real 5) * pi / 2),
            200 - 10 + 150 * sin (- (real 3 / real 5) * pi / 2), 0]
           @ (if even (3::nat) then [0, 0, 255] else [0, 255, 0])"
  using fan_vertices [of 5 3 200] by simp

section \<open>Claims about the indexed mesh\<close>

lemma trianglesIndex_with_eq:
  "trianglesIndex_with ip X Y =
     (concat (map (\<lambda>i. concat (map (grid_vertex ip X Y i) [0..<Y + 1])) [0..<X + 1]),
      concat (map (\<lambda>i. concat (map (cell_indices Y i) [0..<Y])) [0..<X]),
      2 * (X * Y))"
  by (simp add: trianglesIndex_with_def Let_def for_loop_emit_count grid_vertex_def [abs_def]
      cell_indices_def [abs_def] sum_list_triv del: upt_Suc)

lemma triangles_with_eq:
  "triangles_with ip X Y =
     (concat (map (\<lambda>i. concat (map (\<lambda>j.
         fold (pushVertex
                (concat (map (\<lambda>i. concat (map (grid_vertex ip X Y i) [0..<Y + 1])) [0..<X + 1])))
           (cell_indices Y i j) []) [0..<Y])) [0..<X]),
      2 * (X * Y))"
  by (simp add: triangles_with_def Let_def for_loop_emit_count grid_vertex_def [abs_def]
      cell_indices_def [abs_def] pushVertex_def sum_list_triv del: upt_Suc)


lemma take_drop_take:
  assumes "a + d \<le> L"
  shows "take a (drop d (take L xs)) = take a (drop d xs)"
proof -
  have "drop d (take L xs) = take (L - d) (drop d xs)" by (simp add: drop_take)
  moreover have "min a (L - d) = a" using assms by simp
  ultimately show ?thesis by simp
qed

lemma vertexAt_grid:
  assumes len: "\<And>i j. length (f i j) = 6" and p: "p < m" and q: "q < n"
  shows "vertexAt (concat (map (\<lambda>i. concat (map (f i) [0..<n])) [0..<m])) (p * n + q) = f p q"
proof -
  let ?row = "\<lambda>i. concat (map (f i) [0..<n])"
  let ?buf = "concat (map ?row [0..<m])"
  have row_len: "length (?row i) = n * 6" for i
    by (rule concat_blocks_length) (rule len)
  have row: "take (n * 6) (drop (p * (n * 6)) ?buf) = ?row p"
    using p by (intro concat_blocks_drop) (simp_all add: row_len)
  have "6 * q + 6 \<le> n * 6" using q by simp
  then have "take 6 (drop (6 * q) (take (n * 6) (drop (p * (n * 6)) ?buf))) =
             take 6 (drop (6 * q) (drop (p * (n * 6)) ?buf))"
    by (intro take_drop_take) simp
  moreover have "6 * q + p * (n * 6) = 6 * (p * n + q)" by simp
  ultimately have "vertexAt ?buf (p * n + q) = vertexAt (?row p) q"
    unfolding vertexAt_def row by (simp only: drop_drop)
  also have "\<dots> = f p q"
    using q by (intro vertexAt_blocks) (simp_all add: len)
  finally show ?thesis .
qed

lemma length_grid_vertex: "length (grid_vertex ip X Y i j) = 6"
  by (simp add: grid_vertex_def Let_def)

lemma length_cell_indices: "length (cell_indices Y i j) = 6"
  by (simp add: cell_indices_def)

lemma length_grid:
  assumes "\<And>i j. length (f i j) = 6"
  shows "length (concat (map (\<lambda>i. concat (map (f i) [0..<n])) [0..<m])) = 6 * (m * n)"
proof -
  have row: "length (concat (map (f i) [0..<n])) = n * 6" for i
    by (rule concat_blocks_length) (rule assms)
  have "length (concat (map (\<lambda>i. concat (map (f i) [0..<n])) [0..<m])) = m * (n * 6)"
    by (rule concat_blocks_length) (rule row)
  then show ?thesis by simp
qed

lemma cell_indices_bound:
  assumes "i < X" and "j < Y" and "v \<in> set (cell_indices Y i j)"
  shows "v < (X + 1) * (Y + 1)"
proof -
  have "(i + 1) * (Y + 1) \<le> X * (Y + 1)"
    using assms(1) by (intro mult_le_mono1) simp
  moreover have "v \<le> (i + 1) * (Y + 1) + j + 1"
    using assms(3) by (auto simp: cell_indices_def)
  ultimately have "v \<le> X * (Y + 1) + Y" using assms(2) by simp
  then show ?thesis by simp
qed

lemma mesh_indices_bound:
  assumes "v \<in> set (concat (map (\<lambda>i. concat (map (cell_indices Y i) [0..<Y])) [0..<X]))"
  shows "v < (X + 1) * (Y + 1)"
proof -
  from assms obtain i j where "i < X" "j < Y" "v \<in> set (cell_indices Y i j)" by auto
  then show ?thesis by (rule cell_indices_bound)
qed

text \<open>
  Claim C3. With \<open>x_steps = X\<close> and \<open>y_steps = Y\<close> the indexed mesh has a vertex
  buffer of \<open>(X + 1) * (Y + 1)\<close> vertices and an index buffer of \<open>6 * X * Y\<close> entries,
  every entry is a vertex index below \<open>(X + 1) * (Y + 1)\<close> (it is a natural number, so
  it is not negative), and the triangle count handed to the rasterizer is \<open>2 * X * Y\<close>.
\<close>

theorem mesh_index_counts:
  assumes "0 < X" and "0 < Y"
    and "trianglesIndex_with ip X Y = (vertices, indices, numTriangles)"
  shows "length vertices = 6 * ((X + 1) * (Y + 1))
       \<and> length indices = 6 * X * Y
       \<and> (\<forall>k < length indices. indices ! k < (X + 1) * (Y + 1))
       \<and> numTriangles = 2 * X * Y"
proof -
  from assms(3) have vs: "vertices =
      concat (map (\<lambda>i. concat (map (grid_vertex ip X Y i) [0..<Y + 1])) [0..<X + 1])"
    and inds: "indices = concat (map (\<lambda>i. concat (map (cell_indices Y i) [0..<Y])) [0..<X])"
    and nt: "numTriangles = 2 * (X * Y)"
    by (simp_all add: trianglesIndex_with_eq)
  have "length vertices = 6 * ((X + 1) * (Y + 1))"
    unfolding vs by (rule length_grid) (rule length_grid_vertex)
  moreover have "length indices = 6 * (X * Y)"
    unfolding inds by (rule length_grid) (rule length_cell_indices)
  moreover have "indices ! k < (X + 1) * (Y + 1)" if "k < length indices" for k
    using that nth_mem [of k indices] unfolding inds by (intro mesh_indices_bound)
  ultimately show ?thesis using nt by simp
qed

text \<open>
  The mesh of the source, 10 by 5 steps: 66 vertices, 300 indices, 100 triangles, and
  the last index is below 66.
\<close>

theorem mesh_index_counts_witness:
  "(0::nat) < 10 \<and> (0::nat) < 5
     \<and> trianglesIndex_with bilinear 10 5 =
         (fst (trianglesIndex_with bilinear 10 5),
          fst (snd (trianglesIndex_with bilinear 10 5)),
          snd (snd (trianglesIndex_with bilinear 10 5)))
     \<and> 299 < length (fst (snd (trianglesIndex_with bilinear 10 5)))
     \<and> length (fst (trianglesIndex_with bilinear 10 5)) = 6 * 66
     \<and> length (fst (snd (trianglesIndex_with bilinear 10 5))) = 300
     \<and> fst (snd (trianglesIndex_with bilinear 10 5)) ! 299 < 66
     \<and> snd (snd (trianglesIndex_with bilinear 10 5)) = 100"
proof -
  have e: "trianglesIndex_with bilinear 10 5 =
         (fst (trianglesIndex_with bilinear 10 5),
          fst (snd (trianglesIndex_with bilinear 10 5)),
          snd (snd (trianglesIndex_with bilinear 10 5)))" by simp
  have l: "299 < length (fst (snd (trianglesIndex_with bilinear 10 5)))"
    by (simp add: trianglesIndex_with_eq length_grid length_cell_indices)
  from mesh_index_counts [of 10 5 bilinear, OF _ _ e]
  have "length (fst (trianglesIndex_with bilinear 10 5)) = 6 * ((10 + 1) * (5 + 1))
      \<and> length (fst (snd (trianglesIndex_with bilinear 10 5))) = 6 * 10 * 5
      \<and> (\<forall>k < length (fst (snd (trianglesIndex_with bilinear 10 5))).
            fst (snd (trianglesIndex_with bilinear 10 5)) ! k < (10 + 1) * (5 + 1))
      \<and> snd (snd (trianglesIndex_with bilinear 10 5)) = 2 * 10 * 5"
    by simp
  with e l show ?thesis by simp
qed

text \<open>
  Claim C5. The vertex of the grid point \<open>(p, q)\<close> is vertex \<open>p * (y_steps + 1) + q\<close>
  of the vertex buffer, and the six indices of the cell \<open>(i, j)\<close>, at entries
  \<open>6 * (i * y_steps + j)\<close> and following of the index buffer, are the triangle
  \<open>(i, j), (i, j + 1), (i + 1, j)\<close> followed by the triangle
  \<open>(i, j + 1), (i + 1, j + 1), (i + 1, j)\<close>, each grid point given by its vertex index.
\<close>

theorem mesh_index_layout:
  assumes "0 < X" and "0 < Y"
    and "trianglesIndex_with ip X Y = (vertices, indices, numTriangles)"
    and "p \<le> X" and "q \<le> Y" and "i < X" and "j < Y"
  shows "vertexAt vertices (p * (Y + 1) + q) =
           (let color = ip (new_Color 255 0 0) (new_Color 0 255 0) (new_Color 0 0 255)
                          (new_Color 255 255 0) (real p / real X) (real q / real Y)
            in [10 + real p * (180 / real X), 10 + real q * (100 / real Y), 0,
                Math_floor (r color), Math_floor (g color), Math_floor (b color)])
       \<and> take 6 (drop (6 * (i * Y + j)) indices) =
           [i * (Y + 1) + j, i * (Y + 1) + (j + 1), (i + 1) * (Y + 1) + j,
            i * (Y + 1) + (j + 1), (i + 1) * (Y + 1) + (j + 1), (i + 1) * (Y + 1) + j]"
proof -
  from assms(3) have vs: "vertices =
      concat (map (\<lambda>i. concat (map (grid_vertex ip X Y i) [0..<Y + 1])) [0..<X + 1])"
    and inds: "indices = concat (map (\<lambda>i. concat (map (cell_indices Y i) [0..<Y])) [0..<X])"
    by (simp_all add: trianglesIndex_with_eq)
  have "vertexAt vertices (p * (Y + 1) + q) = grid_vertex ip X Y p q"
    unfolding vs using assms(4,5) by (intro vertexAt_grid) (simp_all add: length_grid_vertex)
  moreover have "vertexAt indices (i * Y + j) = cell_indices Y i j"
    unfolding inds using assms(6,7) by (intro vertexAt_grid) (simp_all add: length_cell_indices)
  ultimately show ?thesis
    by (simp add: vertexAt_def grid_vertex_def cell_indices_def)
qed


text \<open>The mesh of the source at the grid point \<open>(3, 2)\<close> and at the last cell \<open>(9, 4)\<close>.\<close>

theorem mesh_index_layout_witness:
  "(0::nat) < 10 \<and> (0::nat) < 5
     \<and> trianglesIndex_with bilinear 10 5 =
         (fst (trianglesIndex_with bilinear 10 5),
          fst (snd (trianglesIndex_with bilinear 10 5)),
          snd (snd (trianglesIndex_with bilinear 10 5)))
     \<and> (3::nat) \<le> 10 \<and> (2::nat) \<le> 5 \<and> (9::nat) < 10 \<and> (4::nat) < 5
     \<and> vertexAt (fst (trianglesIndex_with bilinear 10 5)) (3 * (5 + 1) + 2) =
           (let color = bilinear (new_Color 255 0 0) (new_Color 0 255 0) (new_Color 0 0 255)
                          (new_Color 255 255 0) (real 3 / real 10) (real 2 / real 5)
            in [10 + real 3 * (180 / real 10), 10 + real 2 * (100 / real 5), 0,
                Math_floor (r color), Math_floor (g color), Math_floor (b color)])
     \<and> take 6 (drop (6 * (9 * 5 + 4)) (fst (snd (trianglesIndex_with bilinear 10 5)))) =
           [9 * (5 + 1) + 4, 9 * (5 + 1) + (4 + 1), (9 + 1) * (5 + 1) + 4,
            9 * (5 + 1) + (4 + 1), (9 + 1) * (5 + 1) + (4 + 1), (9 + 1) * (5 + 1) + 4]"
proof -
  have e: "trianglesIndex_with bilinear 10 5 =
         (fst (trianglesIndex_with bilinear 10 5),
          fst (snd (trianglesIndex_with bilinear 10 5)),
          snd (snd (trianglesIndex_with bilinear 10 5)))" by simp
  show ?thesis
    using e mesh_index_layout [of 10 5 bilinear, OF _ _ e, of 3 2 9 4]
    by (simp del: of_nat_numeral)
qed

section \<open>The flattened mesh as the expansion of the indexed mesh\<close>

lemma take6_nth:
  assumes "n + 6 \<le> length xs"
  shows "take 6 (drop n xs) =
           [xs ! n, xs ! (n + 1), xs ! (n + 2), xs ! (n + 3), xs ! (n + 4), xs ! (n + 5)]"
proof (rule nth_equalityI)
  show "length (take 6 (drop n xs)) =
          length [xs ! n, xs ! (n + 1), xs ! (n + 2), xs ! (n + 3), xs ! (n + 4), xs ! (n + 5)]"
    using assms by simp
next
  fix i
  assume "i < length (take 6 (drop n xs))"
  then have "i < 6" by simp
  then consider "i = 0" | "i = 1" | "i = 2" | "i = 3" | "i = 4" | "i = 5" by linarith
  then show "take 6 (drop n xs) ! i =
          [xs ! n, xs ! (n + 1), xs ! (n + 2), xs ! (n + 3), xs ! (n + 4), xs ! (n + 5)] ! i"
    using assms by cases simp_all
qed

lemma pushVertex_in_range:
  assumes "6 * v + 6 \<le> length tmp"
  shows "pushVertex tmp v acc = acc @ map Some (vertexAt tmp v)"
  using assms
  by (simp add: pushVertex_def Let_def js_get_def vertexAt_def take6_nth mult.commute)

lemma fold_pushVertex:
  assumes "\<And>v. v \<in> set vs \<Longrightarrow> 6 * v + 6 \<le> length tmp"
  shows "fold (pushVertex tmp) vs acc = acc @ concat (map (\<lambda>v. map Some (vertexAt tmp v)) vs)"
  using assms
proof (induction vs arbitrary: acc)
  case Nil
  show ?case by simp
next
  case (Cons v vs)
  then show ?case by (simp add: pushVertex_in_range)
qed

lemma concat_map_concat:
  "concat (map emit (concat xss)) = concat (map (\<lambda>xs. concat (map emit xs)) xss)"
  by (induction xss) simp_all

lemma vertexAt_map:
  assumes "\<And>v. length (emit v) = 6" and "k < length xs"
  shows "vertexAt (concat (map emit xs)) k = emit (xs ! k)"
proof -
  have "map emit xs = map (\<lambda>k. emit (xs ! k)) [0..<length xs]"
    by (rule nth_equalityI) simp_all
  then have "vertexAt (concat (map emit xs)) k =
             vertexAt (concat (map (\<lambda>k. emit (xs ! k)) [0..<length xs])) k" by simp
  also have "\<dots> = emit (xs ! k)"
    using assms(2) by (intro vertexAt_blocks) (simp_all add: assms(1))
  finally show ?thesis .
qed

lemma flattened_expands_indexed:
  assumes "trianglesIndex_with ip X Y = (vertices, indices, numTriangles)"
  shows "triangles_with ip X Y =
           (concat (map (\<lambda>v. map Some (vertexAt vertices v)) indices), numTriangles)"
proof -
  from assms have vs: "vertices =
      concat (map (\<lambda>i. concat (map (grid_vertex ip X Y i) [0..<Y + 1])) [0..<X + 1])"
    and inds: "indices = concat (map (\<lambda>i. concat (map (cell_indices Y i) [0..<Y])) [0..<X])"
    and nt: "numTriangles = 2 * (X * Y)"
    by (simp_all add: trianglesIndex_with_eq)
  have len: "length vertices = 6 * ((X + 1) * (Y + 1))"
    unfolding vs by (rule length_grid) (rule length_grid_vertex)
  have cell: "fold (pushVertex vertices) (cell_indices Y i j) [] =
              concat (map (\<lambda>v. map Some (vertexAt vertices v)) (cell_indices Y i j))"
    if "i < X" and "j < Y" for i j
  proof -
    have "6 * v + 6 \<le> length vertices" if "v \<in> set (cell_indices Y i j)" for v
      using cell_indices_bound [OF \<open>i < X\<close> \<open>j < Y\<close> that] by (simp add: len)
    then show ?thesis using fold_pushVertex [of "cell_indices Y i j" vertices "[]"] by simp
  qed
  have "triangles_with ip X Y =
     (concat (map (\<lambda>i. concat (map (\<lambda>j.
         fold (pushVertex vertices) (cell_indices Y i j) []) [0..<Y])) [0..<X]), numTriangles)"
    by (simp only: triangles_with_eq vs nt)
  also have "concat (map (\<lambda>i. concat (map (\<lambda>j.
         fold (pushVertex vertices) (cell_indices Y i j) []) [0..<Y])) [0..<X]) =
     concat (map (\<lambda>i. concat (map (\<lambda>j.
         concat (map (\<lambda>v. map Some (vertexAt vertices v)) (cell_indices Y i j))) [0..<Y])) [0..<X])"
    by (intro arg_cong [where f = concat] map_cong refl) (simp add: cell)
  also have "\<dots> = concat (map (\<lambda>v. map Some (vertexAt vertices v)) indices)"
    unfolding inds by (simp add: concat_map_concat comp_def)
  finally show ?thesis .
qed


lemma length_vertexAt:
  assumes "6 * v + 6 \<le> length buf"
  shows "length (vertexAt buf v) = 6"
  using assms by (simp add: vertexAt_def)

lemma flattened_buffers:
  assumes "trianglesIndex_with ip X Y = (vertices, indices, numTriangles)"
    and "triangles_with ip X Y = (flat, flatTriangles)"
  shows "flatTriangles = numTriangles"
    and "length flat = 6 * length indices"
    and "k < length indices \<Longrightarrow> vertexAt flat k = map Some (vertexAt vertices (indices ! k))"
proof -
  from assms(1) have vs: "vertices =
      concat (map (\<lambda>i. concat (map (grid_vertex ip X Y i) [0..<Y + 1])) [0..<X + 1])"
    and inds: "indices = concat (map (\<lambda>i. concat (map (cell_indices Y i) [0..<Y])) [0..<X])"
    by (simp_all add: trianglesIndex_with_eq)
  have len: "length vertices = 6 * ((X + 1) * (Y + 1))"
    unfolding vs by (rule length_grid) (rule length_grid_vertex)
  have in_range: "6 * v + 6 \<le> length vertices" if "v \<in> set indices" for v
    using mesh_indices_bound [of v Y X] that unfolding inds len by simp
  define emit where "emit v = (if v \<in> set indices then map Some (vertexAt vertices v)
                               else replicate 6 None)" for v
  have emit_len: "length (emit v) = 6" for v
    by (simp add: emit_def length_vertexAt in_range)
  have "concat (map (\<lambda>v. map Some (vertexAt vertices v)) indices) = concat (map emit indices)"
    by (intro arg_cong [where f = concat] map_cong refl) (simp add: emit_def)
  with flattened_expands_indexed [OF assms(1)] assms(2)
  have flat: "flat = concat (map emit indices)" and "flatTriangles = numTriangles"
    by simp_all
  then show "flatTriangles = numTriangles" by simp
  have "map emit indices = map (\<lambda>k. emit (indices ! k)) [0..<length indices]"
    by (rule nth_equalityI) simp_all
  then have "length flat = length indices * 6"
    unfolding flat by (simp only: concat_blocks_length [of _ _ 6, OF emit_len])
  then show "length flat = 6 * length indices" by simp
  show "vertexAt flat k = map Some (vertexAt vertices (indices ! k))" if "k < length indices"
  proof -
    have "vertexAt flat k = emit (indices ! k)"
      unfolding flat using that by (intro vertexAt_map) (simp_all add: emit_len)
    then show ?thesis using that by (simp add: emit_def)
  qed
qed

lemma mesh_lengths:
  assumes "trianglesIndex_with ip X Y = (vertices, indices, numTriangles)"
  shows "length indices = 6 * (X * Y)" and "numTriangles = 2 * (X * Y)"
proof -
  from assms have inds: "indices = concat (map (\<lambda>i. concat (map (cell_indices Y i) [0..<Y])) [0..<X])"
    and nt: "numTriangles = 2 * (X * Y)"
    by (simp_all add: trianglesIndex_with_eq)
  show "length indices = 6 * (X * Y)"
    unfolding inds by (rule length_grid) (rule length_cell_indices)
  show "numTriangles = 2 * (X * Y)" by (rule nt)
qed

text \<open>
  Claim C2. The flattened mesh of the source, one step in each direction, reports the
  triangle count of the indexed mesh with the same steps, holds three vertices for each
  triangle, and the three vertices of triangle \<open>t\<close> are the vertices that the indexed
  mesh names by the three indices of its triangle \<open>t\<close>, positions and colours alike;
  the two lists of three vertices are equal as multisets.
\<close>

theorem flattened_matches_indexed:
  assumes "triangles_with ip 1 1 = (flat, flatTriangles)"
    and "trianglesIndex_with ip 1 1 = (vertices, indices, numTriangles)"
    and "t < numTriangles"
  shows "flatTriangles = numTriangles
       \<and> length flat = 6 * (3 * numTriangles)
       \<and> mset [vertexAt flat (3 * t), vertexAt flat (3 * t + 1), vertexAt flat (3 * t + 2)] =
           mset [map Some (vertexAt vertices (indices ! (3 * t))),
                 map Some (vertexAt vertices (indices ! (3 * t + 1))),
                 map Some (vertexAt vertices (indices ! (3 * t + 2)))]"
proof -
  note lens = mesh_lengths [OF assms(2)]
  note flat = flattened_buffers [OF assms(2) assms(1)]
  from assms(3) lens have t: "3 * t + 2 < length indices" by simp
  then have "3 * t < length indices" and "3 * t + 1 < length indices" by simp_all
  with t flat(3) have "vertexAt flat (3 * t) = map Some (vertexAt vertices (indices ! (3 * t)))"
    and "vertexAt flat (3 * t + 1) = map Some (vertexAt vertices (indices ! (3 * t + 1)))"
    and "vertexAt flat (3 * t + 2) = map Some (vertexAt vertices (indices ! (3 * t + 2)))"
    by simp_all
  moreover have "length flat = 6 * (3 * numTriangles)"
    using flat(2) lens by simp
  ultimately show ?thesis using flat(1) by simp
qed

text \<open>The second triangle, with the bilinear blend as the interpolation.\<close>

theorem flattened_matches_indexed_witness:
  "triangles_with bilinear 1 1 =
       (fst (triangles_with bilinear 1 1), snd (triangles_with bilinear 1 1))
   \<and> trianglesIndex_with bilinear 1 1 =
         (fst (trianglesIndex_with bilinear 1 1),
          fst (snd (trianglesIndex_with bilinear 1 1)),
          snd (snd (trianglesIndex_with bilinear 1 1)))
   \<and> 1 < snd (snd (trianglesIndex_with bilinear 1 1))
   \<and> snd (triangles_with bilinear 1 1) = snd (snd (trianglesIndex_with bilinear 1 1))
   \<and> length (fst (triangles_with bilinear 1 1)) =
       6 * (3 * snd (snd (trianglesIndex_with bilinear 1 1)))
   \<and> mset [vertexAt (fst (triangles_with bilinear 1 1)) (3 * 1),
            vertexAt (fst (triangles_with bilinear 1 1)) (3 * 1 + 1),
            vertexAt (fst (triangles_with bilinear 1 1)) (3 * 1 + 2)] =
       mset [map Some (vertexAt (fst (trianglesIndex_with bilinear 1 1))
                        (fst (snd (trianglesIndex_with bilinear 1 1)) ! (3 * 1))),
             map Some (vertexAt (fst (trianglesIndex_with bilinear 1 1))
                        (fst (snd (trianglesIndex_with bilinear 1 1)) ! (3 * 1 + 1))),
             map Some (vertexAt (fst (trianglesIndex_with bilinear 1 1))
                        (fst (snd (trianglesIndex_with bilinear 1 1)) ! (3 * 1 + 2)))]"
proof -
  have f: "triangles_with bilinear 1 1 =
       (fst (triangles_with bilinear 1 1), snd (triangles_with bilinear 1 1))" by simp
  have e: "trianglesIndex_with bilinear 1 1 =
         (fst (trianglesIndex_with bilinear 1 1),
          fst (snd (trianglesIndex_with bilinear 1 1)),
          snd (snd (trianglesIndex_with bilinear 1 1)))" by simp
  have t: "1 < snd (snd (trianglesIndex_with bilinear 1 1))"
    by (simp add: trianglesIndex_with_eq)
  from flattened_matches_indexed [OF f e t] f e t show ?thesis by simp
qed

text \<open>
  Claim C8, as the code has it. The flattened buffer holds three vertices for each
  reported triangle, whatever the step counts: six vertices, 36 numbers, for the two
  triangles of the source.
\<close>

theorem flattened_vertex_count:
  "length (fst (triangles_with ip X Y)) = 6 * (3 * snd (triangles_with ip X Y))
   \<and> length (fst (triangles_with ip 1 1)) = 6 * 6
   \<and> snd (triangles_with ip 1 1) = 2"
proof -
  have general: "length (fst (triangles_with ip m n)) = 6 * (3 * snd (triangles_with ip m n))
      \<and> snd (triangles_with ip m n) = 2 * (m * n)" for m n
  proof -
    obtain vertices indices numTriangles
      where e: "trianglesIndex_with ip m n = (vertices, indices, numTriangles)"
      by (cases "trianglesIndex_with ip m n") auto
    obtain flat flatTriangles where f: "triangles_with ip m n = (flat, flatTriangles)"
      by (cases "triangles_with ip m n") auto
    from flattened_buffers(1,2) [OF e f] mesh_lengths [OF e] f show ?thesis by simp
  qed
  from general [of X Y] general [of 1 1] show ?thesis by simp
qed

text \<open>
  The count of claim C8, six vertices for each reported triangle, is not the count of
  the flattened mesh of the source: it has six vertices and reports two triangles.
\<close>

theorem flattened_vertex_count_counterexample:
  "length (fst (triangles_with bilinear 1 1)) div 6 \<noteq> 6 * snd (triangles_with bilinear 1 1)"
proof -
  obtain vertices indices numTriangles
    where e: "trianglesIndex_with bilinear 1 1 = (vertices, indices, numTriangles)"
    by (cases "trianglesIndex_with bilinear 1 1") auto
  obtain flat flatTriangles where f: "triangles_with bilinear 1 1 = (flat, flatTriangles)"
    by (cases "triangles_with bilinear 1 1") auto
  from flattened_buffers(1,2) [OF e f] mesh_lengths [OF e] f show ?thesis by simp
qed

section \<open>Claims about the dispatcher\<close>

text \<open>What each drawing method hands to the rasterizer.\<close>

lemma renderTriangleStrip_call:
  "renderTriangleStrip gp frame drawBorder borderColor =
     (fillTriangleStrip gp (generateTriangleStrip (width frame) (height frame)) frame
        drawBorder borderColor,
      [FillTriangleStrip (generateTriangleStrip (width frame) (height frame))
         drawBorder borderColor])"
  by (simp add: renderTriangleStrip_def invoke_def Let_def)

lemma generateTriangleFan_call:
  "generateTriangleFan gp frame drawBorder borderColor =
     (fillTriangleFan gp (triangleFan_with 5 (height frame)) frame drawBorder borderColor,
      [FillTriangleFan (triangleFan_with 5 (height frame)) drawBorder borderColor])"
  by (simp add: generateTriangleFan_def invoke_def Let_def)

lemma generateTrianglesIndex_call:
  assumes "trianglesIndex_with ip 10 5 = (vertices, indices, numTriangles)"
  shows "generateTrianglesIndex gp ip frame drawBorder borderColor =
     (fillTrianglesIndex gp vertices indices numTriangles frame drawBorder borderColor,
      [FillTrianglesIndex vertices indices numTriangles drawBorder borderColor])"
  using assms by (simp add: generateTrianglesIndex_def invoke_def)

lemma generateTriangles_call:
  assumes "triangles_with ip 1 1 = (vertices, numTriangles)"
  shows "generateTriangles gp ip frame drawBorder borderColor =
     (fillTriangles gp vertices numTriangles frame drawBorder borderColor,
      [FillTriangles vertices numTriangles drawBorder borderColor])"
  using assms by (simp add: generateTriangles_def invoke_def)


lemma getModels_eq:
  "getModels = [''meshIndex'', ''meshTriangles'', ''triangleFan'', ''triangleStrip'']"
  by (simp add: getModels_def modelTesters_def)

lemma drawModel_known:
  assumes "model \<in> set getModels"
  shows "length (snd (drawModel gp ip model frame drawBorder borderColor)) = 1"
  using assms
  by (auto simp: getModels_eq drawModel_def renderTriangleStrip_def generateTriangleFan_def
      generateTrianglesIndex_def generateTriangles_def invoke_def Let_def split: prod.splits)

text \<open>
  Claim C7. For every identifier other than \<open>''triangleStrip''\<close>, and every width and
  height, \<^verbatim>\<open>getModel\<close> returns the empty sequence. For every identifier that is not
  one of the four registered names \<^verbatim>\<open>drawModel\<close> invokes no fill operation and
  leaves the frame as it was, whatever the fill operations do.
\<close>

theorem unknown_model_is_noop:
  "(model \<noteq> ''triangleStrip'' \<longrightarrow> getModel model wd ht = [])
   \<and> (model \<notin> set getModels \<longrightarrow>
        drawModel gp ip model frame drawBorder borderColor = (frame, []))"
  by (simp add: getModel_def drawModel_def getModels_eq)

text \<open>
  The identifier \<open>''cube''\<close>, with fill operations that each change the frame they are
  given.
\<close>

theorem unknown_model_is_noop_witness:
  "''cube'' \<noteq> ''triangleStrip'' \<and> ''cube'' \<notin> set getModels
   \<and> getModel ''cube'' 200 200 = []
   \<and> drawModel
        \<lparr>fillTriangleStrip = (\<lambda>vertices frame drawBorder borderColor.
            frame\<lparr>pixels := Suc (pixels frame)\<rparr>),
         fillTriangleFan = (\<lambda>vertices frame drawBorder borderColor.
            frame\<lparr>pixels := Suc (pixels frame)\<rparr>),
         fillTrianglesIndex = (\<lambda>vertices indices numTriangles frame drawBorder borderColor.
            frame\<lparr>pixels := Suc (pixels frame)\<rparr>),
         fillTriangles = (\<lambda>vertices numTriangles frame drawBorder borderColor.
            frame\<lparr>pixels := Suc (pixels frame)\<rparr>)\<rparr>
        bilinear ''cube'' \<lparr>width = 200, height = 200, pixels = 0\<rparr> True (new_Color 0 0 0) =
      (\<lparr>width = 200, height = 200, pixels = 0\<rparr>, [])"
  using unknown_model_is_noop [of "''cube''" 200 200 _ bilinear
      "\<lparr>width = 200, height = 200, pixels = 0\<rparr>" True "new_Color 0 0 0"]
  by (simp add: getModels_eq)

end
